theory Spec2Isabelle
  imports Complex_Main "HOL-Library.Sublist"
begin

section \<open>The worker pool of sos: \<open>src/sos/workers.py\<close>\<close>

text \<open>
  A shallow embedding of the class \<open>WorkerManager\<close> (the dispatcher) and of the nesting
  stack of \<open>SoS_Worker\<close> (\<open>push_env\<close>, \<open>pop_env\<close>). Every method is a function on an
  explicit state record. What a method reads from outside the object is an argument:
  each reading of \<open>time.time()\<close>, each answer of \<open>is_alive()\<close>, the readiness signals
  for which \<open>poll\<close> answers true. What it writes to the backend socket is appended to
  the field \<open>sent\<close>. A method that raises returns \<open>Raise\<close> with the state as the
  mutations before the raise left it.
\<close>

subsection \<open>Outcomes of a call\<close>

datatype py_error = KeyError | IndexError | ProcessKilled

datatype ('e, 's) outcome = Return 's | Raise 'e 's

fun state_of :: "('e, 's) outcome \<Rightarrow> 's" where
  "state_of (Return s) = s"
| "state_of (Raise e s) = s"

fun is_return :: "('e, 's) outcome \<Rightarrow> bool" where
  "is_return (Return s) = True"
| "is_return (Raise e s) = False"

fun raised :: "('e, 's) outcome \<Rightarrow> 'e option" where
  "raised (Return s) = None"
| "raised (Raise e s) = Some e"

subsection \<open>The state of a \<open>WorkerManager\<close>\<close>

text \<open>
  What the manager writes to \<open>_worker_backend_socket\<close>: \<open>send(msg)\<close> is \<open>Raw msg\<close>,
  \<open>send_pyobj(msg)\<close> is \<open>Pyobj msg\<close>, \<open>send_pyobj({})\<close> is \<open>Empty_dict\<close> and
  \<open>send_pyobj(None)\<close> is \<open>Py_None\<close>. Messages are opaque (the type \<open>'m\<close>).
\<close>

datatype 'm payload = Raw 'm | Pyobj 'm | Empty_dict | Py_None

fun is_work :: "'m payload \<Rightarrow> bool" where
  "is_work (Raw x) = True"
| "is_work (Pyobj x) = True"
| "is_work Empty_dict = False"
| "is_work Py_None = False"

text \<open>
  The fields of \<open>WorkerManager\<close>, without the leading underscore. A process handle in
  \<open>workers\<close> is the number of the \<open>SoS_Worker\<close> object: \<open>n_spawned\<close> counts the objects
  created so far and is the only field that the class does not have. \<open>step_requests\<close>
  is the dict, \<open>substep_requests\<close> the list (index 0 first), the two port sets are the
  sets, \<open>sent\<close> is what went out on the backend socket, oldest first.
\<close>

record 'm manager =
  max_workers :: int
  workers :: "nat list"
  num_workers :: int
  n_requested :: int
  n_processed :: int
  worker_alive_time :: real
  last_avail_time :: real
  substep_requests :: "'m list"
  step_requests :: "int \<rightharpoonup> 'm"
  available_ports :: "int set"
  claimed_ports :: "int set"
  sent :: "'m payload list"
  n_spawned :: nat

subsection \<open>\<open>start\<close> and \<open>__init__\<close>\<close>

definition start :: "'m manager \<Rightarrow> 'm manager" where
  "start m = m\<lparr>workers := workers m @ [n_spawned m],
               num_workers := num_workers m + 1,
               n_spawned := Suc (n_spawned m)\<rparr>"

text \<open>\<open>t1\<close> and \<open>t2\<close> are the two readings of the clock, in the order of the source.\<close>

definition WorkerManager_init :: "int \<Rightarrow> real \<Rightarrow> real \<Rightarrow> 'm manager" where
  "WorkerManager_init mx t1 t2 =
     start \<lparr>max_workers = mx, workers = [], num_workers = 0,
            n_requested = 0, n_processed = 0,
            worker_alive_time = t1, last_avail_time = t2,
            substep_requests = [], step_requests = Map.empty,
            available_ports = {}, claimed_ports = {},
            sent = [], n_spawned = 0\<rparr>"

subsection \<open>\<open>add_request\<close>\<close>

text \<open>\<open>insert(0, msg)\<close> puts the message at index 0; \<open>report\<close> returns at once.\<close>

definition add_request :: "int option \<Rightarrow> 'm \<Rightarrow> 'm manager \<Rightarrow> 'm manager" where
  "add_request port msg m =
     (let m1 = (case port of
                  None \<Rightarrow> m\<lparr>substep_requests := msg # substep_requests m\<rparr>
                | Some p \<Rightarrow> m\<lparr>step_requests := (step_requests m)(p \<mapsto> msg)\<rparr>);
          m2 = m1\<lparr>n_requested := n_requested m1 + 1\<rparr>
      in if n_processed m2 > 0 \<and> available_ports m2 = {} \<and> num_workers m2 < max_workers m2
         then start m2 else m2)"

subsection \<open>\<open>worker_available\<close>\<close>

text \<open>
  \<open>set.pop()\<close> removes an element that the caller does not choose: the function gives
  every possible result, one for each member of \<open>available_ports\<close>.
\<close>

definition worker_available :: "'m manager \<Rightarrow> (int option \<times> 'm manager) set" where
  "worker_available m =
     (if available_ports m \<noteq> {}
      then (\<lambda>claimed. (Some claimed,
                       m\<lparr>available_ports := available_ports m - {claimed},
                         claimed_ports := insert claimed (claimed_ports m)\<rparr>))
           ` available_ports m
      else {(None, if num_workers m < max_workers m then start m else m)})"

subsection \<open>\<open>process_request\<close>\<close>

text \<open>
  \<open>t\<close> is the reading of the clock. \<open>list.pop()\<close> takes the last element of the list.
  \<open>set.remove\<close> raises \<open>KeyError\<close> on a port that is not in the set, after the lines
  before it have run.
\<close>

definition process_request :: "int \<Rightarrow> real \<Rightarrow> 'm manager \<Rightarrow> (py_error, 'm manager) outcome" where
  "process_request port t m =
     (case step_requests m port of
        Some req \<Rightarrow>
          (let m1 = m\<lparr>step_requests := (step_requests m)(port := None),
                      sent := sent m @ [Raw req],
                      last_avail_time := t,
                      n_processed := n_processed m + 1\<rparr>
           in if port \<in> claimed_ports m1
              then Return (m1\<lparr>claimed_ports := claimed_ports m1 - {port}\<rparr>)
              else Raise KeyError m1)
      | None \<Rightarrow>
          if port \<in> claimed_ports m
          then Return (m\<lparr>sent := sent m @ [Empty_dict]\<rparr>)
          else if substep_requests m \<noteq> []
          then Return (m\<lparr>substep_requests := butlast (substep_requests m),
                          sent := sent m @ [Pyobj (last (substep_requests m))],
                          last_avail_time := t,
                          n_processed := n_processed m + 1,
                          available_ports := available_ports m - {port}\<rparr>)
          else Return (m\<lparr>available_ports := insert port (available_ports m),
                          sent := sent m @ [Empty_dict]\<rparr>))"

subsection \<open>\<open>check_workers\<close> and \<open>kill_all\<close>\<close>

text \<open>
  The loop of idle reclamation. \<open>signals\<close> are the ports that \<open>recv_pyobj\<close> returns, in
  order, for as long as \<open>poll(100)\<close> answers true; \<open>poll\<close> answers false when the list
  is used up, and is not asked once \<open>num_workers\<close> is 1 or less.
\<close>

fun reclaim :: "int list \<Rightarrow> 'm manager \<Rightarrow> 'm manager" where
  "reclaim [] m = m"
| "reclaim (port # signals) m =
     (if num_workers m > 1
      then if port \<in> claimed_ports m
           then reclaim signals (m\<lparr>sent := sent m @ [Empty_dict]\<rparr>)
           else reclaim signals (m\<lparr>available_ports := available_ports m - {port},
                                    sent := sent m @ [Py_None],
                                    num_workers := num_workers m - 1\<rparr>)
      else m)"

text \<open>
  \<open>t1\<close>, \<open>t2\<close> and \<open>t3\<close> are the readings of the clock at the three calls of
  \<open>time.time()\<close> (the second is read only when the first test passes); \<open>alive w\<close> is
  the answer of \<open>is_alive()\<close> for the handle \<open>w\<close>.
\<close>

definition check_workers ::
  "real \<Rightarrow> real \<Rightarrow> real \<Rightarrow> (nat \<Rightarrow> bool) \<Rightarrow> int list \<Rightarrow> 'm manager
     \<Rightarrow> (py_error, 'm manager) outcome" where
  "check_workers t1 t2 t3 alive signals m =
     (let gate = (t1 - worker_alive_time m > 5);
          m1 = (if gate
                then m\<lparr>worker_alive_time := t2, workers := filter alive (workers m)\<rparr>
                else m)
      in if gate \<and> int (length (workers m1)) < num_workers m1
         then Raise ProcessKilled m1
         else if t3 - last_avail_time m1 < 5
         then Return m1
         else Return (reclaim signals m1))"

text \<open>
  \<open>signals\<close> are the readiness signals for which \<open>poll(1000)\<close> answers true; what
  \<open>recv_pyobj\<close> returns is dropped.
\<close>

fun kill_all :: "int list \<Rightarrow> 'm manager \<Rightarrow> 'm manager" where
  "kill_all [] m = m"
| "kill_all (port # signals) m =
     (if num_workers m > 0
      then kill_all signals (m\<lparr>sent := sent m @ [Py_None],
                                num_workers := num_workers m - 1\<rparr>)
      else m)"

subsection \<open>Sequences of calls\<close>

text \<open>
  Three substeps submitted with no port, in the order \<open>s1\<close>, \<open>s2\<close>, \<open>s3\<close>.
\<close>

definition submit3 :: "'m \<Rightarrow> 'm \<Rightarrow> 'm \<Rightarrow> 'm manager \<Rightarrow> 'm manager" where
  "submit3 s1 s2 s3 m = add_request None s3 (add_request None s2 (add_request None s1 m))"

text \<open>
  A run of \<open>process_request\<close> calls, each with its port and its reading of the clock;
  the run stops at the first call that raises.
\<close>

fun process_requests ::
  "(int \<times> real) list \<Rightarrow> 'm manager \<Rightarrow> (py_error, 'm manager) outcome" where
  "process_requests [] m = Return m"
| "process_requests ((p, t) # calls) m =
     (case process_request p t m of
        Return m' \<Rightarrow> process_requests calls m'
      | Raise e m' \<Rightarrow> Raise e m')"

text \<open>A run of \<open>add_request\<close> calls, first call first.\<close>

fun add_requests :: "(int option \<times> 'm) list \<Rightarrow> 'm manager \<Rightarrow> 'm manager" where
  "add_requests [] m = m"
| "add_requests ((port, msg) # reqs) m = add_requests reqs (add_request port msg m)"

text \<open>
  The message of the last call in \<open>reqs\<close> that names the port \<open>p\<close>, if there is one.
\<close>

fun latest :: "(int option \<times> 'm) list \<Rightarrow> int \<Rightarrow> 'm option" where
  "latest [] p = None"
| "latest ((port, msg) # reqs) p =
     (case latest reqs p of
        Some x \<Rightarrow> Some x
      | None \<Rightarrow> if port = Some p then Some msg else None)"

subsection \<open>Reachable states of the manager\<close>

text \<open>
  A call of \<open>process_request\<close> writes one payload to the socket; it delivered work when
  that payload is a request and not \<open>{}\<close>.
\<close>

definition delivered_work :: "(py_error, 'm manager) outcome \<Rightarrow> bool" where
  "delivered_work r = (sent (state_of r) \<noteq> [] \<and> is_work (last (sent (state_of r))))"

text \<open>
  \<open>reach m B F\<close>: the state \<open>m\<close> is reached from a new manager by calls of the five
  public methods; a call that raises leaves the state it had reached. \<open>B\<close> and \<open>F\<close>
  are not fields of the class: \<open>B\<close> is the set of ports whose last \<open>process_request\<close>
  delivered work and returned, \<open>F\<close> the set of ports whose last \<open>process_request\<close>
  delivered work and then raised.
\<close>

inductive reach :: "'m manager \<Rightarrow> int set \<Rightarrow> int set \<Rightarrow> bool" where
  reach_init: "reach (WorkerManager_init mx t1 t2) {} {}"
| reach_add: "reach m B F \<Longrightarrow> reach (add_request port msg m) B F"
| reach_avail: "reach m B F \<Longrightarrow> (r, m') \<in> worker_available m \<Longrightarrow> reach m' B F"
| reach_proc: "reach m B F \<Longrightarrow> r = process_request p t m \<Longrightarrow>
     reach (state_of r)
       (if delivered_work r \<and> is_return r then insert p B else B - {p})
       (if delivered_work r \<and> \<not> is_return r then insert p F else F - {p})"
| reach_check: "reach m B F \<Longrightarrow>
     reach (state_of (check_workers t1 t2 t3 alive signals m)) B F"
| reach_kill: "reach m B F \<Longrightarrow> reach (kill_all signals m) B F"

text \<open>
  \<open>active m\<close>: the state \<open>m\<close> is reached from a new manager while the pool is in use,
  that is, by every public method but \<open>kill_all\<close>, which shuts the pool down.
\<close>

inductive active :: "'m manager \<Rightarrow> bool" where
  active_init: "active (WorkerManager_init mx t1 t2)"
| active_add: "active m \<Longrightarrow> active (add_request port msg m)"
| active_avail: "active m \<Longrightarrow> (r, m') \<in> worker_available m \<Longrightarrow> active m'"
| active_proc: "active m \<Longrightarrow> active (state_of (process_request p t m))"
| active_check: "active m \<Longrightarrow> active (state_of (check_workers t1 t2 t3 alive signals m))"

subsection \<open>The nesting stack of \<open>SoS_Worker\<close>\<close>

text \<open>
  The fields of \<open>SoS_Worker\<close> that \<open>push_env\<close> and \<open>pop_env\<close> use, and the two parts of
  the process-wide \<open>env\<close> that they write: \<open>env_idx\<close> is the argument of the last
  \<open>env.switch\<close>, \<open>env_master_socket\<close> is \<open>env.master_socket\<close>; both are \<open>None\<close> until
  they are first written. A socket is a value of the opaque type \<open>'s\<close>.
\<close>

record 's worker =
  master_sockets :: "'s list"
  master_ports :: "int list"
  stack_idx :: int
  env_idx :: "int option"
  env_master_socket :: "'s option"

text \<open>
  \<open>xs[i]\<close> in Python: a negative index counts from the end, an index out of range
  raises \<open>IndexError\<close> (here \<open>None\<close>).
\<close>

definition py_index :: "'a list \<Rightarrow> int \<Rightarrow> 'a option" where
  "py_index xs i =
     (if 0 \<le> i \<and> i < int (length xs) then Some (xs ! nat i)
      else if i < 0 \<and> - int (length xs) \<le> i then Some (xs ! nat (int (length xs) + i))
      else None)"

definition SoS_Worker_init :: "'s worker" where
  "SoS_Worker_init =
     \<lparr>master_sockets = [], master_ports = [], stack_idx = 0,
      env_idx = None, env_master_socket = None\<rparr>"

text \<open>
  The lines of \<open>run\<close> that create the first master socket. \<open>sock\<close> is what
  \<open>create_socket\<close> returns and \<open>port\<close> what \<open>bind_to_random_port\<close> returns.
\<close>

definition run_setup :: "'s \<Rightarrow> int \<Rightarrow> 's worker \<Rightarrow> 's worker" where
  "run_setup sock port w =
     w\<lparr>env_master_socket := Some sock,
       master_sockets := master_sockets w @ [sock],
       master_ports := master_ports w @ [port]\<rparr>"

text \<open>
  \<open>sock\<close> and \<open>port\<close> are what \<open>create_socket\<close> and \<open>bind_to_random_port\<close> return
  when \<open>push_env\<close> calls them; they are not used otherwise.
\<close>

definition push_env :: "'s \<Rightarrow> int \<Rightarrow> 's worker \<Rightarrow> (py_error, 's worker) outcome" where
  "push_env sock port w =
     (let w1 = w\<lparr>stack_idx := stack_idx w + 1, env_idx := Some (stack_idx w + 1)\<rparr>
      in if int (length (master_sockets w1)) > stack_idx w1
         then (case py_index (master_sockets w1) (stack_idx w1) of
                 Some s \<Rightarrow> Return (w1\<lparr>env_master_socket := Some s\<rparr>)
               | None \<Rightarrow> Raise IndexError w1)
         else Return (w1\<lparr>env_master_socket := Some sock,
                         master_sockets := master_sockets w1 @ [sock],
                         master_ports := master_ports w1 @ [port]\<rparr>))"

definition pop_env :: "'s worker \<Rightarrow> (py_error, 's worker) outcome" where
  "pop_env w =
     (let w1 = w\<lparr>stack_idx := stack_idx w - 1, env_idx := Some (stack_idx w - 1)\<rparr>
      in case py_index (master_sockets w1) (stack_idx w1) of
           Some s \<Rightarrow> Return (w1\<lparr>env_master_socket := Some s\<rparr>)
         | None \<Rightarrow> Raise IndexError w1)"

text \<open>
  The port that \<open>_process_job\<close> sends to the manager: \<open>_master_ports[_stack_idx]\<close>.
\<close>

definition active_port :: "'s worker \<Rightarrow> int option" where
  "active_port w = py_index (master_ports w) (stack_idx w)"

text \<open>
  The states of a running worker: \<open>run\<close> creates the first socket, then \<open>_process_job\<close>
  calls \<open>push_env\<close>, itself, and \<open>pop_env\<close>, so that every \<open>pop_env\<close> follows a
  \<open>push_env\<close> and finds \<open>stack_idx\<close> above 0.
\<close>

inductive worker_reach :: "'s worker \<Rightarrow> bool" where
  wr_setup: "worker_reach (run_setup sock port SoS_Worker_init)"
| wr_push: "worker_reach w \<Longrightarrow> worker_reach (state_of (push_env sock port w))"
| wr_pop: "worker_reach w \<Longrightarrow> 0 < stack_idx w \<Longrightarrow> worker_reach (state_of (pop_env w))"

text \<open>\<open>later w w'\<close>: the state \<open>w'\<close> comes from \<open>w\<close> by any calls of the two methods.\<close>

inductive later :: "'s worker \<Rightarrow> 's worker \<Rightarrow> bool" where
  later_refl: "later w w"
| later_push: "later w w' \<Longrightarrow> later w (state_of (push_env sock port w'))"
| later_pop: "later w w' \<Longrightarrow> later w (state_of (pop_env w'))"

text \<open>
  The shape of the state of a running worker: \<open>stack_idx\<close> is an index of the two
  lists, the lists have the same length, and \<open>env.master_socket\<close> is the socket at
  \<open>stack_idx\<close>.
\<close>

definition worker_ok :: "'s worker \<Rightarrow> bool" where
  "worker_ok w =
     (0 \<le> stack_idx w \<and> stack_idx w < int (length (master_sockets w)) \<and>
      length (master_ports w) = length (master_sockets w) \<and>
      env_master_socket w = Some (master_sockets w ! nat (stack_idx w)))"

section \<open>Properties of the manager\<close>

subsection \<open>What each method does to each field\<close>

lemma init_fields:
  "num_workers (WorkerManager_init mx t1 t2) = 1"
  "max_workers (WorkerManager_init mx t1 t2) = mx"
  "step_requests (WorkerManager_init mx t1 t2) = Map.empty"
  "substep_requests (WorkerManager_init mx t1 t2) = []"
  "available_ports (WorkerManager_init mx t1 t2) = {}"
  "claimed_ports (WorkerManager_init mx t1 t2) = {}"
  "sent (WorkerManager_init mx t1 t2) = []"
  "workers (WorkerManager_init mx t1 t2) = [0]"
  by (simp_all add: WorkerManager_init_def start_def)

lemma add_request_substep_requests:
  "substep_requests (add_request port msg m) =
     (case port of None \<Rightarrow> msg # substep_requests m | Some p \<Rightarrow> substep_requests m)"
  by (simp add: add_request_def start_def Let_def split: option.splits)

lemma add_request_step_requests:
  "step_requests (add_request port msg m) =
     (case port of None \<Rightarrow> step_requests m | Some p \<Rightarrow> (step_requests m)(p \<mapsto> msg))"
  by (simp add: add_request_def start_def Let_def split: option.splits)

lemma add_request_ports:
  "available_ports (add_request port msg m) = available_ports m"
  "claimed_ports (add_request port msg m) = claimed_ports m"
  by (simp_all add: add_request_def start_def Let_def split: option.splits)

lemma add_request_sent: "sent (add_request port msg m) = sent m"
  by (simp add: add_request_def start_def Let_def split: option.splits)

lemma add_request_workers:
  "max_workers (add_request port msg m) = max_workers m"
  "num_workers (add_request port msg m) =
     (if n_processed m > 0 \<and> available_ports m = {} \<and> num_workers m < max_workers m
      then num_workers m + 1 else num_workers m)"
  by (simp_all add: add_request_def start_def Let_def split: option.splits)

lemma process_request_substep:
  assumes "step_requests m p = None" "p \<notin> claimed_ports m" "substep_requests m \<noteq> []"
  shows "process_request p t m =
     Return (m\<lparr>substep_requests := butlast (substep_requests m),
               sent := sent m @ [Pyobj (last (substep_requests m))],
               last_avail_time := t,
               n_processed := n_processed m + 1,
               available_ports := available_ports m - {p}\<rparr>)"
  using assms by (simp add: process_request_def)

lemma submit3_fields:
  "substep_requests (submit3 s1 s2 s3 m) = s3 # s2 # s1 # substep_requests m"
  "step_requests (submit3 s1 s2 s3 m) = step_requests m"
  "claimed_ports (submit3 s1 s2 s3 m) = claimed_ports m"
  "sent (submit3 s1 s2 s3 m) = sent m"
  by (simp_all add: submit3_def add_request_substep_requests add_request_step_requests
      add_request_ports add_request_sent)

subsection \<open>The order in which substeps are served\<close>

text \<open>
  Claim C1, as the code has it. After the substeps \<open>s1\<close>, \<open>s2\<close>, \<open>s3\<close> are submitted in
  this order with no port to a manager with no substep queued, three calls of
  \<open>process_request\<close>, on ports with no pending step request that are not claimed, all
  return, and they deliver \<open>s1\<close>, then \<open>s2\<close>, then \<open>s3\<close>: the oldest substep is served
  first, and the queue is empty afterwards.
\<close>

theorem substeps_served_oldest_first:
  assumes "substep_requests m = []"
    and "step_requests m p1 = None" "p1 \<notin> claimed_ports m"
    and "step_requests m p2 = None" "p2 \<notin> claimed_ports m"
    and "step_requests m p3 = None" "p3 \<notin> claimed_ports m"
  shows "\<exists>m'. process_requests [(p1, t1), (p2, t2), (p3, t3)] (submit3 s1 s2 s3 m) = Return m'
           \<and> sent m' = sent m @ [Pyobj s1, Pyobj s2, Pyobj s3]
           \<and> substep_requests m' = []"
  using assms by (simp add: process_request_substep submit3_fields)

text \<open>
  The theorem at a new manager with room for two workers, the substeps \<open>S1\<close>, \<open>S2\<close>,
  \<open>S3\<close> and the ports 10, 11 and 12.
\<close>

theorem substeps_served_oldest_first_witness:
  "substep_requests (WorkerManager_init 2 0 0 :: string manager) = []
   \<and> step_requests (WorkerManager_init 2 0 0 :: string manager) 10 = None
   \<and> 10 \<notin> claimed_ports (WorkerManager_init 2 0 0 :: string manager)
   \<and> (\<exists>m'. process_requests [(10, 1), (11, 2), (12, 3)]
              (submit3 ''S1'' ''S2'' ''S3'' (WorkerManager_init 2 0 0)) = Return m'
          \<and> sent m' = [Pyobj ''S1'', Pyobj ''S2'', Pyobj ''S3''])"
proof -
  let ?m = "WorkerManager_init 2 0 0 :: string manager"
  have q: "substep_requests ?m = []" by (simp add: init_fields)
  have s: "step_requests ?m p = None" for p by (simp add: init_fields)
  have c: "p \<notin> claimed_ports ?m" for p by (simp add: init_fields)
  show ?thesis
    using substeps_served_oldest_first [OF q s c s c s c, of 10 1 11 2 12 3 "''S1''" "''S2''" "''S3''"]
      q s c
    by (auto simp add: init_fields)
qed

text \<open>
  Claim C1 as it is stated fails: at the same input the three calls deliver \<open>S1\<close>,
  \<open>S2\<close>, \<open>S3\<close>, and not \<open>S3\<close>, \<open>S2\<close>, \<open>S1\<close>.
\<close>

theorem substeps_not_lifo:
  "substep_requests (WorkerManager_init 2 0 0 :: string manager) = []
   \<and> step_requests (WorkerManager_init 2 0 0 :: string manager) 10 = None
   \<and> step_requests (WorkerManager_init 2 0 0 :: string manager) 11 = None
   \<and> step_requests (WorkerManager_init 2 0 0 :: string manager) 12 = None
   \<and> claimed_ports (WorkerManager_init 2 0 0 :: string manager) = {}
   \<and> sent (state_of (process_requests [(10, 1), (11, 2), (12, 3)]
              (submit3 ''S1'' ''S2'' ''S3'' (WorkerManager_init 2 0 0))))
        = [Pyobj ''S1'', Pyobj ''S2'', Pyobj ''S3'']
   \<and> sent (state_of (process_requests [(10, 1), (11, 2), (12, 3)]
              (submit3 ''S1'' ''S2'' ''S3'' (WorkerManager_init 2 0 0))))
        \<noteq> [Pyobj ''S3'', Pyobj ''S2'', Pyobj ''S1'']"
  by (simp add: init_fields process_request_substep submit3_fields)

subsection \<open>The four cases of \<open>process_request\<close>\<close>

text \<open>
  Claim C2. \<open>process_request\<close> on a port decides in this order. (1) A step request is
  pending for the port: it is sent, its entry is removed, the reading of the clock is
  stored, \<open>n_processed\<close> grows by one and the port is not in \<open>claimed_ports\<close>
  afterwards. (2) Else the port is claimed: \<open>{}\<close> is sent and nothing else changes.
  (3) Else a substep is queued: one is taken from the queue and sent, the clock is
  stored, \<open>n_processed\<close> grows by one and the port is not in \<open>available_ports\<close>
  afterwards. (4) Else the port is added to \<open>available_ports\<close> and \<open>{}\<close> is sent.
\<close>

theorem process_request_priority:
 "(step_requests m p = Some req \<longrightarrow>
     state_of (process_request p t m) =
       m\<lparr>step_requests := (step_requests m)(p := None),
         sent := sent m @ [Raw req],
         last_avail_time := t,
         n_processed := n_processed m + 1,
         claimed_ports := claimed_ports m - {p}\<rparr>)
  \<and> (step_requests m p = None \<and> p \<in> claimed_ports m \<longrightarrow>
     process_request p t m = Return (m\<lparr>sent := sent m @ [Empty_dict]\<rparr>))
  \<and> (step_requests m p = None \<and> p \<notin> claimed_ports m \<and> substep_requests m \<noteq> [] \<longrightarrow>
     process_request p t m =
       Return (m\<lparr>substep_requests := butlast (substep_requests m),
                 sent := sent m @ [Pyobj (last (substep_requests m))],
                 last_avail_time := t,
                 n_processed := n_processed m + 1,
                 available_ports := available_ports m - {p}\<rparr>))
  \<and> (step_requests m p = None \<and> p \<notin> claimed_ports m \<and> substep_requests m = [] \<longrightarrow>
     process_request p t m =
       Return (m\<lparr>available_ports := insert p (available_ports m),
                 sent := sent m @ [Empty_dict]\<rparr>))"
  by (simp add: process_request_def Let_def)

text \<open>
  The theorem at one state for each case, all with port 7: a step request pending
  for the port; the port claimed; a substep queued; and a new manager.
\<close>

theorem process_request_priority_witness:
  "step_requests (add_request (Some 7) ''job'' (WorkerManager_init 2 0 0)) 7 = Some ''job''
   \<and> sent (state_of (process_request 7 1
              (add_request (Some 7) ''job'' (WorkerManager_init 2 0 0)))) = [Raw ''job'']
   \<and> step_requests ((WorkerManager_init 2 0 0 :: string manager)\<lparr>claimed_ports := {7}\<rparr>) 7 = None
   \<and> 7 \<in> claimed_ports ((WorkerManager_init 2 0 0 :: string manager)\<lparr>claimed_ports := {7}\<rparr>)
   \<and> sent (state_of (process_request 7 1
              ((WorkerManager_init 2 0 0 :: string manager)\<lparr>claimed_ports := {7}\<rparr>)))
        = [Empty_dict]
   \<and> substep_requests (add_request None ''S'' (WorkerManager_init 2 0 0)) \<noteq> []
   \<and> sent (state_of (process_request 7 1
              (add_request None ''S'' (WorkerManager_init 2 0 0)))) = [Pyobj ''S'']
   \<and> substep_requests (WorkerManager_init 2 0 0 :: string manager) = []
   \<and> available_ports (state_of (process_request 7 1
              (WorkerManager_init 2 0 0 :: string manager))) = {7}"
proof -
  let ?m0 = "WorkerManager_init 2 0 0 :: string manager"
  let ?m1 = "add_request (Some 7) ''job'' ?m0"
  let ?m2 = "?m0\<lparr>claimed_ports := {7}\<rparr>"
  let ?m3 = "add_request None ''S'' ?m0"
  have h1: "step_requests ?m1 7 = Some ''job''"
    by (simp add: add_request_step_requests)
  have h2: "step_requests ?m2 7 = None \<and> 7 \<in> claimed_ports ?m2"
    by (simp add: init_fields)
  have h3: "step_requests ?m3 7 = None \<and> 7 \<notin> claimed_ports ?m3 \<and> substep_requests ?m3 \<noteq> []"
    by (simp add: add_request_step_requests add_request_ports add_request_substep_requests
        init_fields)
  have h4: "step_requests ?m0 7 = None \<and> 7 \<notin> claimed_ports ?m0 \<and> substep_requests ?m0 = []"
    by (simp add: init_fields)
  have c1: "sent (state_of (process_request 7 1 ?m1)) = [Raw ''job'']"
    using process_request_priority [of ?m1 7 "''job''" 1] h1
    by (simp add: add_request_sent init_fields)
  have c2: "sent (state_of (process_request 7 1 ?m2)) = [Empty_dict]"
    using process_request_priority [of ?m2 7 "''job''" 1] h2
    by (simp add: init_fields)
  have c3: "sent (state_of (process_request 7 1 ?m3)) = [Pyobj ''S'']"
    using process_request_priority [of ?m3 7 "''job''" 1] h3
    by (simp add: add_request_sent add_request_substep_requests init_fields)
  have c4: "available_ports (state_of (process_request 7 1 ?m0)) = {7}"
    using process_request_priority [of ?m0 7 "''job''" 1] h4
    by (simp add: init_fields)
  show ?thesis using h1 h2 h3 h4 c1 c2 c3 c4 by simp
qed

subsection \<open>One pending step request for each port\<close>

lemma step_requests_add_requests:
  "step_requests (add_requests reqs m) p =
     (case latest reqs p of Some x \<Rightarrow> Some x | None \<Rightarrow> step_requests m p)"
  by (induction reqs arbitrary: m)
     (auto simp: add_request_step_requests split: option.splits)

text \<open>
  Claim C3. \<open>step_requests\<close> holds at most one request for a port: after any run of
  \<open>add_request\<close> calls on a new manager, what is pending for a port \<open>p\<close> is the
  message of the last call that named \<open>p\<close>, and nothing when no call named it. A
  second \<open>add_request\<close> for \<open>p\<close> before delivery replaces the first: the next
  \<open>process_request\<close> on \<open>p\<close> sends the second message only, and nothing is pending
  for \<open>p\<close> after it.
\<close>

theorem one_pending_request_per_port:
  "step_requests (add_requests reqs (WorkerManager_init mx t1 t2)) p = latest reqs p
   \<and> step_requests (add_request (Some p) b (add_request (Some p) a m)) p = Some b
   \<and> sent (state_of (process_request p t (add_request (Some p) b (add_request (Some p) a m))))
        = sent m @ [Raw b]
   \<and> step_requests
        (state_of (process_request p t (add_request (Some p) b (add_request (Some p) a m)))) p
        = None"
  by (simp add: step_requests_add_requests init_fields add_request_step_requests
      add_request_sent process_request_def Let_def split: option.splits)

text \<open>
  The theorem at a run of four calls on the ports 7, 8, 7 and none: the second
  request for port 7 is the one that is pending, and the one that is delivered.
\<close>

theorem one_pending_request_per_port_witness:
  "step_requests (add_requests [(Some 7, ''a''), (Some 8, ''c''), (Some 7, ''b''), (None, ''s'')]
       (WorkerManager_init 2 0 0)) 7 = Some ''b''
   \<and> step_requests (add_requests [(Some 7, ''a''), (Some 8, ''c''), (Some 7, ''b''), (None, ''s'')]
       (WorkerManager_init 2 0 0)) 9 = None
   \<and> sent (state_of (process_request 7 1
        (add_request (Some 7) ''b'' (add_request (Some 7) ''a'' (WorkerManager_init 2 0 0)))))
        = [Raw ''b'']"
  using one_pending_request_per_port
          [of "[(Some 7, ''a''), (Some 8, ''c''), (Some 7, ''b''), (None, ''s'')]" 2 0 0 7
              "''b''" "''a''" "WorkerManager_init 2 0 0" 1]
        one_pending_request_per_port
          [of "[(Some 7, ''a''), (Some 8, ''c''), (Some 7, ''b''), (None, ''s'')]" 2 0 0 9
              "''b''" "''a''" "WorkerManager_init 2 0 0" 1]
  by (simp add: init_fields)

subsection \<open>\<open>worker_available\<close>\<close>

text \<open>
  Claim C5. When \<open>available_ports\<close> is not empty, \<open>worker_available\<close> has a result,
  and every result is some port \<open>p\<close> of \<open>available_ports\<close>, with \<open>p\<close> moved from
  \<open>available_ports\<close> to \<open>claimed_ports\<close> and nothing else changed. When it is empty,
  the result is no port, and one worker is started (one handle appended, the count
  raised by one) if \<open>num_workers\<close> is below \<open>max_workers\<close>, and nothing changes if it
  is not.
\<close>

theorem worker_available_spec:
  "(available_ports m \<noteq> {} \<longrightarrow>
      worker_available m \<noteq> {} \<and>
      (\<forall>(r, m') \<in> worker_available m. \<exists>p \<in> available_ports m.
          r = Some p \<and>
          m' = m\<lparr>available_ports := available_ports m - {p},
                 claimed_ports := insert p (claimed_ports m)\<rparr>))
 \<and> (available_ports m = {} \<longrightarrow>
      (\<exists>m'. worker_available m = {(None, m')} \<and>
        (num_workers m < max_workers m \<longrightarrow>
           m' = start m \<and>
           workers m' = workers m @ [n_spawned m] \<and> num_workers m' = num_workers m + 1) \<and>
        (\<not> num_workers m < max_workers m \<longrightarrow> m' = m)))"
  by (auto simp add: worker_available_def start_def)

text \<open>
  The theorem at three states: port 7 available; no port available and one worker
  of two allowed; no port available and one worker of one allowed.
\<close>

theorem worker_available_spec_witness:
  "available_ports ((WorkerManager_init 2 0 0 :: string manager)\<lparr>available_ports := {7}\<rparr>) \<noteq> {}
   \<and> worker_available ((WorkerManager_init 2 0 0 :: string manager)\<lparr>available_ports := {7}\<rparr>)
        \<noteq> {}
   \<and> available_ports (WorkerManager_init 2 0 0 :: string manager) = {}
   \<and> num_workers (WorkerManager_init 2 0 0 :: string manager)
        < max_workers (WorkerManager_init 2 0 0 :: string manager)
   \<and> worker_available (WorkerManager_init 2 0 0 :: string manager)
        = {(None, start (WorkerManager_init 2 0 0))}
   \<and> available_ports (WorkerManager_init 1 0 0 :: string manager) = {}
   \<and> \<not> num_workers (WorkerManager_init 1 0 0 :: string manager)
        < max_workers (WorkerManager_init 1 0 0 :: string manager)
   \<and> worker_available (WorkerManager_init 1 0 0 :: string manager)
        = {(None, WorkerManager_init 1 0 0)}"
proof -
  let ?a = "(WorkerManager_init 2 0 0 :: string manager)\<lparr>available_ports := {7}\<rparr>"
  let ?b = "WorkerManager_init 2 0 0 :: string manager"
  let ?c = "WorkerManager_init 1 0 0 :: string manager"
  have ha: "available_ports ?a \<noteq> {}" by simp
  have hb: "available_ports ?b = {} \<and> num_workers ?b < max_workers ?b"
    by (simp add: init_fields)
  have hc: "available_ports ?c = {} \<and> \<not> num_workers ?c < max_workers ?c"
    by (simp add: init_fields)
  have ca: "worker_available ?a \<noteq> {}"
    using worker_available_spec [of ?a] ha by blast
  have cb: "worker_available ?b = {(None, start ?b)}"
    using worker_available_spec [of ?b] hb by auto
  have cc: "worker_available ?c = {(None, ?c)}"
    using worker_available_spec [of ?c] hc by auto
  show ?thesis using ha hb hc ca cb cc by simp
qed

subsection \<open>\<open>process_request\<close> on a port with nothing to do\<close>

text \<open>
  Claim C7, as the code has it. For a port with no pending step request that is not
  claimed, when no substep is queued, \<open>process_request\<close> returns, adds the port to
  \<open>available_ports\<close> and sends \<open>{}\<close>; a second call on the same port sends \<open>{}\<close>
  again and leaves every field of the manager as the first call left it.
\<close>

theorem process_request_idle:
  assumes "step_requests m p = None" "p \<notin> claimed_ports m" "substep_requests m = []"
  shows "process_request p t m =
           Return (m\<lparr>available_ports := insert p (available_ports m),
                     sent := sent m @ [Empty_dict]\<rparr>)
       \<and> process_request p t' (state_of (process_request p t m)) =
           Return ((state_of (process_request p t m))
                     \<lparr>sent := sent (state_of (process_request p t m)) @ [Empty_dict]\<rparr>)"
  using assms by (simp add: process_request_def Let_def insert_absorb)

text \<open>The theorem at a new manager and port 7.\<close>

theorem process_request_idle_witness:
  "step_requests (WorkerManager_init 2 0 0 :: string manager) 7 = None
   \<and> 7 \<notin> claimed_ports (WorkerManager_init 2 0 0 :: string manager)
   \<and> substep_requests (WorkerManager_init 2 0 0 :: string manager) = []
   \<and> process_request 7 1 (WorkerManager_init 2 0 0 :: string manager)
        = Return ((WorkerManager_init 2 0 0)\<lparr>available_ports := {7}, sent := [Empty_dict]\<rparr>)
   \<and> process_request 7 2 (state_of (process_request 7 1 (WorkerManager_init 2 0 0 :: string manager)))
        = Return ((WorkerManager_init 2 0 0)
                    \<lparr>available_ports := {7}, sent := [Empty_dict, Empty_dict]\<rparr>)"
proof -
  let ?m = "WorkerManager_init 2 0 0 :: string manager"
  have h1: "step_requests ?m 7 = None" by (simp add: init_fields)
  have h2: "7 \<notin> claimed_ports ?m" by (simp add: init_fields)
  have h3: "substep_requests ?m = []" by (simp add: init_fields)
  note th = process_request_idle [OF h1 h2 h3, of 1 2]
  have a: "process_request 7 1 ?m
             = Return (?m\<lparr>available_ports := {7}, sent := [Empty_dict]\<rparr>)"
    using conjunct1 [OF th] by (simp add: init_fields)
  have b: "process_request 7 2 (state_of (process_request 7 1 ?m))
             = Return (?m\<lparr>available_ports := {7}, sent := [Empty_dict, Empty_dict]\<rparr>)"
    using conjunct2 [OF th] by (simp add: a)
  show ?thesis using h1 h2 h3 a b by simp
qed

text \<open>
  Claim C7 as it is stated fails when a substep is queued: port 7 has no pending
  step request and is not claimed, and \<open>process_request\<close> sends it the substep and
  does not add it to \<open>available_ports\<close>.
\<close>

theorem process_request_idle_counterexample:
  "step_requests (add_request None ''S'' (WorkerManager_init 2 0 0)) 7 = None
   \<and> 7 \<notin> claimed_ports (add_request None ''S'' (WorkerManager_init 2 0 0))
   \<and> sent (state_of (process_request 7 1 (add_request None ''S'' (WorkerManager_init 2 0 0))))
        = [Pyobj ''S'']
   \<and> 7 \<notin> available_ports
        (state_of (process_request 7 1 (add_request None ''S'' (WorkerManager_init 2 0 0))))"
  by (simp add: process_request_substep add_request_step_requests add_request_ports
      add_request_substep_requests add_request_sent init_fields)

subsection \<open>A pending step request on a port that is not claimed\<close>

text \<open>
  Claim C9. For a port with a pending step request, \<open>process_request\<close> sends the
  request, removes the pending entry, stores the clock and raises \<open>n_processed\<close>, and
  then removes the port from \<open>claimed_ports\<close>. The call returns when the port is in
  \<open>claimed_ports\<close>. When it is not, the call raises \<open>KeyError\<close>, and the state it
  leaves has the request sent, the pending entry removed and \<open>n_processed\<close> raised.
\<close>

theorem process_request_step_needs_claim:
  assumes "step_requests m p = Some req"
  shows "(p \<in> claimed_ports m \<longrightarrow>
            process_request p t m =
              Return (m\<lparr>step_requests := (step_requests m)(p := None),
                        sent := sent m @ [Raw req],
                        last_avail_time := t,
                        n_processed := n_processed m + 1,
                        claimed_ports := claimed_ports m - {p}\<rparr>))
       \<and> (p \<notin> claimed_ports m \<longrightarrow>
            process_request p t m =
              Raise KeyError
                (m\<lparr>step_requests := (step_requests m)(p := None),
                   sent := sent m @ [Raw req],
                   last_avail_time := t,
                   n_processed := n_processed m + 1\<rparr>))
       \<and> (is_return (process_request p t m) \<longleftrightarrow> p \<in> claimed_ports m)"
  using assms by (simp add: process_request_def Let_def)

text \<open>
  The theorem at two states with the request \<open>job\<close> pending for port 7: one where the
  port is claimed, one where it is not.
\<close>

theorem process_request_step_needs_claim_witness:
  "step_requests (add_request (Some 7) ''job''
        ((WorkerManager_init 2 0 0)\<lparr>claimed_ports := {7}\<rparr>)) 7 = Some ''job''
   \<and> 7 \<in> claimed_ports (add_request (Some 7) ''job''
        ((WorkerManager_init 2 0 0)\<lparr>claimed_ports := {7}\<rparr>))
   \<and> is_return (process_request 7 1 (add_request (Some 7) ''job''
        ((WorkerManager_init 2 0 0)\<lparr>claimed_ports := {7}\<rparr>)))
   \<and> claimed_ports (state_of (process_request 7 1 (add_request (Some 7) ''job''
        ((WorkerManager_init 2 0 0)\<lparr>claimed_ports := {7}\<rparr>)))) = {}
   \<and> step_requests (add_request (Some 7) ''job'' (WorkerManager_init 2 0 0)) 7 = Some ''job''
   \<and> 7 \<notin> claimed_ports (add_request (Some 7) ''job'' (WorkerManager_init 2 0 0))
   \<and> raised (process_request 7 1 (add_request (Some 7) ''job'' (WorkerManager_init 2 0 0)))
        = Some KeyError
   \<and> sent (state_of (process_request 7 1
        (add_request (Some 7) ''job'' (WorkerManager_init 2 0 0)))) = [Raw ''job'']
   \<and> n_processed (state_of (process_request 7 1
        (add_request (Some 7) ''job'' (WorkerManager_init 2 0 0)))) = 1"
proof -
  let ?a = "add_request (Some 7) ''job'' ((WorkerManager_init 2 0 0)\<lparr>claimed_ports := {7}\<rparr>)"
  let ?b = "add_request (Some 7) ''job'' (WorkerManager_init 2 0 0)"
  have ha: "step_requests ?a 7 = Some ''job''" by (simp add: add_request_step_requests)
  have hb: "step_requests ?b 7 = Some ''job''" by (simp add: add_request_step_requests)
  have ca: "7 \<in> claimed_ports ?a" by (simp add: add_request_ports)
  have cb: "7 \<notin> claimed_ports ?b" by (simp add: add_request_ports init_fields)
  have np: "n_processed ?b = 0"
    by (simp add: add_request_def WorkerManager_init_def start_def Let_def)
  have ra: "is_return (process_request 7 1 ?a)
            \<and> claimed_ports (state_of (process_request 7 1 ?a)) = {}"
    using process_request_step_needs_claim [OF ha, of 1] ca
    by (simp add: add_request_ports)
  have rb: "raised (process_request 7 1 ?b) = Some KeyError
            \<and> sent (state_of (process_request 7 1 ?b)) = [Raw ''job'']
            \<and> n_processed (state_of (process_request 7 1 ?b)) = 1"
    using process_request_step_needs_claim [OF hb, of 1] cb np
    by (simp add: add_request_sent init_fields)
  show ?thesis using ha hb ca cb ra rb by simp
qed

subsection \<open>When \<open>check_workers\<close> raises\<close>

lemma filter_shorter_iff: "length (filter P xs) < length xs \<longleftrightarrow> (\<exists>x \<in> set xs. \<not> P x)"
proof
  assume "length (filter P xs) < length xs"
  then have "filter P xs \<noteq> xs" by auto
  then show "\<exists>x \<in> set xs. \<not> P x" by (auto simp: filter_id_conv)
next
  assume "\<exists>x \<in> set xs. \<not> P x"
  then show "length (filter P xs) < length xs" by (auto intro: length_filter_less)
qed

text \<open>
  Claim C8, as the code has it. \<open>check_workers\<close> raises \<open>ProcessKilled\<close> if and only if
  the clock is more than 5 past \<open>worker_alive_time\<close> and fewer of the tracked
  handles are alive than \<open>num_workers\<close> counts. It raises nothing else. What it
  raises reaches the caller: the call ends with the raise, in the state with the
  time stored and the dead handles dropped, and runs no idle reclamation. When the
  clock is more than 5 past \<open>worker_alive_time\<close> and \<open>num_workers\<close> is the number of
  tracked handles, it raises if and only if some tracked worker is not alive.
\<close>

theorem check_workers_raises_iff:
  "(raised (check_workers t1 t2 t3 alive signals m) = Some ProcessKilled \<longleftrightarrow>
      5 < t1 - worker_alive_time m \<and>
      int (length (filter alive (workers m))) < num_workers m)
   \<and> (is_return (check_workers t1 t2 t3 alive signals m) \<longleftrightarrow>
      raised (check_workers t1 t2 t3 alive signals m) \<noteq> Some ProcessKilled)
   \<and> (raised (check_workers t1 t2 t3 alive signals m) = Some ProcessKilled \<longrightarrow>
      check_workers t1 t2 t3 alive signals m =
        Raise ProcessKilled
          (m\<lparr>worker_alive_time := t2, workers := filter alive (workers m)\<rparr>))
   \<and> (5 < t1 - worker_alive_time m \<and> num_workers m = int (length (workers m)) \<longrightarrow>
      (raised (check_workers t1 t2 t3 alive signals m) = Some ProcessKilled \<longleftrightarrow>
         (\<exists>w \<in> set (workers m). \<not> alive w)))"
  by (simp add: check_workers_def Let_def filter_shorter_iff)

text \<open>
  The theorem at a new manager whose only worker, handle 0, is dead, checked at
  time 6: the call raises.
\<close>

theorem check_workers_raises_iff_witness:
  "5 < 6 - worker_alive_time (WorkerManager_init 2 0 0 :: string manager)
   \<and> num_workers (WorkerManager_init 2 0 0 :: string manager)
        = int (length (workers (WorkerManager_init 2 0 0 :: string manager)))
   \<and> 0 \<in> set (workers (WorkerManager_init 2 0 0 :: string manager))
   \<and> check_workers 6 7 8 (\<lambda>w. w \<noteq> 0) [] (WorkerManager_init 2 0 0 :: string manager)
        = Raise ProcessKilled ((WorkerManager_init 2 0 0)\<lparr>worker_alive_time := 7, workers := []\<rparr>)"
proof -
  let ?m = "WorkerManager_init 2 0 0 :: string manager"
  let ?r = "check_workers 6 7 8 (\<lambda>w. w \<noteq> 0) [] ?m"
  have t: "worker_alive_time ?m = 0" by (simp add: WorkerManager_init_def start_def)
  have h: "5 < 6 - worker_alive_time ?m \<and> num_workers ?m = int (length (workers ?m))"
    by (simp add: t init_fields)
  have d: "\<exists>w \<in> set (workers ?m). \<not> w \<noteq> 0" by (simp add: init_fields)
  note th = check_workers_raises_iff [of 6 7 8 "\<lambda>w. w \<noteq> 0" "[]" ?m]
  have r: "raised ?r = Some ProcessKilled" using th h d by blast
  have "?r = Raise ProcessKilled (?m\<lparr>worker_alive_time := 7, workers := filter (\<lambda>w. w \<noteq> 0) (workers ?m)\<rparr>)"
    using th r by blast
  then show ?thesis using h by (simp add: init_fields)
qed

text \<open>
  Claim C8 as it is stated fails: the only tracked worker, handle 0, is not alive,
  and \<open>check_workers\<close> at time 1, within 5 of the last check, returns.
\<close>

theorem check_workers_dead_worker_no_raise:
  "workers (WorkerManager_init 2 0 0 :: string manager) = [0]
   \<and> filter (\<lambda>w. w \<noteq> 0) (workers (WorkerManager_init 2 0 0 :: string manager)) = []
   \<and> check_workers 1 1 1 (\<lambda>w. w \<noteq> 0) [] (WorkerManager_init 2 0 0 :: string manager)
        = Return (WorkerManager_init 2 0 0)"
  by (simp add: check_workers_def WorkerManager_init_def start_def Let_def)

subsection \<open>The two port sets\<close>

lemma reclaim_ports:
  "available_ports (reclaim signals m) \<subseteq> available_ports m \<and>
   claimed_ports (reclaim signals m) = claimed_ports m"
proof (induction signals arbitrary: m)
  case Nil
  show ?case by simp
next
  case (Cons port signals)
  show ?case
    using Cons.IH [of "m\<lparr>sent := sent m @ [Empty_dict]\<rparr>"]
      Cons.IH [of "m\<lparr>available_ports := available_ports m - {port},
                     sent := sent m @ [Py_None],
                     num_workers := num_workers m - 1\<rparr>"]
    by auto
qed

lemma check_workers_ports:
  "available_ports (state_of (check_workers t1 t2 t3 alive signals m)) \<subseteq> available_ports m \<and>
   claimed_ports (state_of (check_workers t1 t2 t3 alive signals m)) = claimed_ports m"
  using reclaim_ports [of signals m]
    reclaim_ports [of signals "m\<lparr>worker_alive_time := t2, workers := filter alive (workers m)\<rparr>"]
  by (auto simp: check_workers_def Let_def)

lemma kill_all_ports:
  "available_ports (kill_all signals m) = available_ports m \<and>
   claimed_ports (kill_all signals m) = claimed_ports m"
  by (induction signals arbitrary: m) auto

lemma process_request_ports:
  assumes "available_ports m \<inter> claimed_ports m = {}"
    and "r = process_request p t m"
  shows "available_ports (state_of r) \<inter> claimed_ports (state_of r) = {}"
    and "available_ports (state_of r) \<union> claimed_ports (state_of r)
           \<subseteq> insert p (available_ports m \<union> claimed_ports m)"
    and "delivered_work r \<and> is_return r \<longrightarrow>
           p \<notin> available_ports (state_of r) \<union> claimed_ports (state_of r)"
  using assms
  by (auto simp: process_request_def Let_def delivered_work_def split: option.splits if_splits)

text \<open>
  Claim C4, as the code has it. In every state reached from a new manager by
  \<open>add_request\<close>, \<open>worker_available\<close>, \<open>process_request\<close>, \<open>check_workers\<close> and
  \<open>kill_all\<close>, also after a call that raised, \<open>available_ports\<close> and \<open>claimed_ports\<close>
  are disjoint, so a port is in at most one of them; and a port whose last
  \<open>process_request\<close> delivered work and returned is in neither.
\<close>

theorem ports_disjoint:
  assumes "reach m B F"
  shows "available_ports m \<inter> claimed_ports m = {} \<and>
         B \<inter> (available_ports m \<union> claimed_ports m) = {}"
  using assms
proof (induction rule: reach.induct)
  case (reach_init mx t1 t2)
  show ?case by (simp add: init_fields)
next
  case (reach_add m B F port msg)
  then show ?case by (simp add: add_request_ports)
next
  case (reach_avail m B F r m')
  then show ?case
    by (auto simp: worker_available_def start_def split: if_splits)
next
  case (reach_proc m B F r p t)
  have d: "available_ports m \<inter> claimed_ports m = {}"
    and b: "B \<inter> (available_ports m \<union> claimed_ports m) = {}"
    using reach_proc.IH by simp_all
  note pr = process_request_ports [OF d reach_proc.hyps(2)]
  show ?case
  proof (cases "delivered_work r \<and> is_return r")
    case True
    then show ?thesis using pr b by auto
  next
    case False
    then show ?thesis using pr b by auto
  qed
next
  case (reach_check m B F t1 t2 t3 alive signals)
  then show ?case
    using check_workers_ports [of t1 t2 t3 alive signals m] by auto
next
  case (reach_kill m B F signals)
  then show ?case by (simp add: kill_all_ports)
qed

text \<open>
  The theorem at the state reached by a new manager, one substep submitted, and
  \<open>process_request\<close> on port 7, which delivers the substep and returns.
\<close>

theorem ports_disjoint_witness:
  "reach (state_of (process_request 7 1 (add_request None ''S'' (WorkerManager_init 2 0 0))))
     {7} {}
   \<and> available_ports
        (state_of (process_request 7 1 (add_request None ''S'' (WorkerManager_init 2 0 0))))
      \<inter> claimed_ports
        (state_of (process_request 7 1 (add_request None ''S'' (WorkerManager_init 2 0 0))))
      = {}
   \<and> 7 \<notin> available_ports
        (state_of (process_request 7 1 (add_request None ''S'' (WorkerManager_init 2 0 0))))
   \<and> 7 \<notin> claimed_ports
        (state_of (process_request 7 1 (add_request None ''S'' (WorkerManager_init 2 0 0))))"
proof -
  let ?m0 = "WorkerManager_init 2 0 0 :: string manager"
  let ?m1 = "add_request None ''S'' ?m0"
  let ?r2 = "process_request 7 1 ?m1"
  have h: "step_requests ?m1 7 = None" "7 \<notin> claimed_ports ?m1" "substep_requests ?m1 \<noteq> []"
    by (simp_all add: add_request_step_requests add_request_ports
        add_request_substep_requests init_fields)
  have dw: "delivered_work ?r2 \<and> is_return ?r2"
    by (simp add: process_request_substep [OF h] delivered_work_def)
  have a0: "reach ?m0 {} {}" by (rule reach_init)
  have a1: "reach ?m1 {} {}" using a0 by (rule reach_add)
  have a2: "reach (state_of ?r2) {7} {}"
    using reach_proc [OF a1 refl, of 7 1] dw by simp
  show ?thesis using ports_disjoint [OF a2] a2 by simp
qed

text \<open>
  Claim C4 as it is stated fails for a port that was delivered work by a call that
  raised. A new manager; \<open>process_request\<close> on port 7 makes the port available;
  \<open>add_request\<close> records the request \<open>job\<close> for port 7; \<open>process_request\<close> on port 7
  sends \<open>job\<close> and raises \<open>KeyError\<close>. Port 7 has been delivered work and is in
  \<open>available_ports\<close>.
\<close>

theorem delivered_port_still_available:
  "reach (state_of (process_request 7 2 (add_request (Some 7) ''job''
            (state_of (process_request 7 1 (WorkerManager_init 2 0 0)))))) {} {7}
   \<and> 7 \<in> available_ports (state_of (process_request 7 2 (add_request (Some 7) ''job''
            (state_of (process_request 7 1 (WorkerManager_init 2 0 0))))))
   \<and> sent (state_of (process_request 7 2 (add_request (Some 7) ''job''
            (state_of (process_request 7 1 (WorkerManager_init 2 0 0))))))
       = [Empty_dict, Raw ''job'']
   \<and> raised (process_request 7 2 (add_request (Some 7) ''job''
            (state_of (process_request 7 1 (WorkerManager_init 2 0 0))))) = Some KeyError"
proof -
  let ?m0 = "WorkerManager_init 2 0 0 :: string manager"
  let ?r1 = "process_request 7 1 ?m0"
  let ?m2 = "add_request (Some 7) ''job'' (state_of ?r1)"
  let ?r3 = "process_request 7 2 ?m2"
  have r1: "?r1 = Return (?m0\<lparr>available_ports := {7}, sent := [Empty_dict]\<rparr>)"
    by (simp add: process_request_def WorkerManager_init_def start_def)
  have m2: "?m2 = ?m0\<lparr>available_ports := {7}, sent := [Empty_dict],
                       step_requests := [7 \<mapsto> ''job''], n_requested := 1\<rparr>"
    unfolding r1 by (simp add: add_request_def WorkerManager_init_def start_def Let_def)
  have r3: "?r3 = Raise KeyError (?m0\<lparr>available_ports := {7},
                       sent := [Empty_dict, Raw ''job''],
                       step_requests := Map.empty, n_requested := 1,
                       last_avail_time := 2, n_processed := 1\<rparr>)"
    unfolding m2 by (simp add: process_request_def WorkerManager_init_def start_def Let_def)
  have a0: "reach ?m0 {} {}" by (rule reach_init)
  have a1: "reach (state_of ?r1) {} {}"
    using reach_proc [OF a0 refl, of 7 1] by (simp add: r1 delivered_work_def)
  have a2: "reach ?m2 {} {}" using a1 by (rule reach_add)
  have a3: "reach (state_of ?r3) {} {7}"
    using reach_proc [OF a2 refl, of 7 2] by (simp add: r3 delivered_work_def)
  show ?thesis using a3 by (simp add: r3)
qed

subsection \<open>The number of workers\<close>

lemma worker_available_workers:
  assumes "(r, m') \<in> worker_available m"
  shows "max_workers m' = max_workers m \<and>
         num_workers m' =
           (if available_ports m = {} \<and> num_workers m < max_workers m
            then num_workers m + 1 else num_workers m)"
  using assms by (auto simp: worker_available_def start_def split: if_splits)

lemma process_request_workers:
  "max_workers (state_of (process_request p t m)) = max_workers m"
  "num_workers (state_of (process_request p t m)) = num_workers m"
  by (simp_all add: process_request_def Let_def split: option.splits)

lemma reclaim_workers:
  "max_workers (reclaim signals m) = max_workers m \<and>
   num_workers (reclaim signals m) \<le> num_workers m \<and>
   (1 \<le> num_workers m \<longrightarrow> 1 \<le> num_workers (reclaim signals m)) \<and>
   (num_workers (reclaim signals m) \<noteq> num_workers m \<longrightarrow> 1 < num_workers m)"
proof (induction signals arbitrary: m)
  case Nil
  show ?case by simp
next
  case (Cons port signals)
  show ?case
    using Cons.IH [of "m\<lparr>sent := sent m @ [Empty_dict]\<rparr>"]
      Cons.IH [of "m\<lparr>available_ports := available_ports m - {port},
                     sent := sent m @ [Py_None],
                     num_workers := num_workers m - 1\<rparr>"]
    by auto
qed

lemma check_workers_workers:
  "max_workers (state_of (check_workers t1 t2 t3 alive signals m)) = max_workers m \<and>
   num_workers (state_of (check_workers t1 t2 t3 alive signals m)) \<le> num_workers m \<and>
   (1 \<le> num_workers m \<longrightarrow>
      1 \<le> num_workers (state_of (check_workers t1 t2 t3 alive signals m))) \<and>
   (num_workers (state_of (check_workers t1 t2 t3 alive signals m)) \<noteq> num_workers m \<longrightarrow>
      1 < num_workers m)"
  using reclaim_workers [of signals m]
    reclaim_workers [of signals "m\<lparr>worker_alive_time := t2, workers := filter alive (workers m)\<rparr>"]
  by (auto simp: check_workers_def Let_def)

lemma active_bounds:
  assumes "active m"
  shows "1 \<le> num_workers m \<and> num_workers m \<le> max 1 (max_workers m)"
  using assms
proof (induction rule: active.induct)
  case (active_init mx t1 t2)
  show ?case by (simp add: init_fields)
next
  case (active_add m port msg)
  then show ?case by (auto simp: add_request_workers)
next
  case (active_avail m r m')
  then show ?case using worker_available_workers [OF active_avail.hyps(2)] by auto
next
  case (active_proc m p t)
  then show ?case by (simp add: process_request_workers)
next
  case (active_check m t1 t2 t3 alive signals)
  then show ?case
    using check_workers_workers [of t1 t2 t3 alive signals m] by auto
qed

text \<open>
  Claim C6, as the code has it. The constructor starts one worker whatever
  \<open>max_workers\<close> is. In every state of a pool in use (reached from a new manager by
  \<open>add_request\<close>, \<open>worker_available\<close>, \<open>process_request\<close> and \<open>check_workers\<close>),
  \<open>num_workers\<close> is at least 1 and at most the larger of 1 and \<open>max_workers\<close>; so it
  never exceeds \<open>max_workers\<close> when \<open>max_workers\<close> is at least 1. \<open>add_request\<close> and
  \<open>worker_available\<close> change the count only by starting one worker while the count
  is below \<open>max_workers\<close>, and \<open>check_workers\<close> lowers it only while it is above 1
  and never below 1.
\<close>

theorem worker_count_bounds:
  assumes "active m"
  shows "1 \<le> num_workers m
       \<and> num_workers m \<le> max 1 (max_workers m)
       \<and> (1 \<le> max_workers m \<longrightarrow> num_workers m \<le> max_workers m)
       \<and> num_workers (WorkerManager_init mx t1 t2 :: 'm manager) = 1
       \<and> (num_workers (add_request port msg m) \<noteq> num_workers m \<longrightarrow>
            num_workers m < max_workers m \<and>
            num_workers (add_request port msg m) = num_workers m + 1)
       \<and> (\<forall>(r, m') \<in> worker_available m.
            num_workers m' \<noteq> num_workers m \<longrightarrow>
              num_workers m < max_workers m \<and> num_workers m' = num_workers m + 1)
       \<and> (num_workers (state_of (check_workers c1 c2 c3 alive signals m)) \<noteq> num_workers m \<longrightarrow>
            1 < num_workers m \<and>
            1 \<le> num_workers (state_of (check_workers c1 c2 c3 alive signals m)) \<and>
            num_workers (state_of (check_workers c1 c2 c3 alive signals m)) < num_workers m)"
proof -
  have b: "1 \<le> num_workers m \<and> num_workers m \<le> max 1 (max_workers m)"
    using assms by (rule active_bounds)
  have i: "num_workers (WorkerManager_init mx t1 t2 :: 'm manager) = 1"
    by (simp add: init_fields)
  have a: "num_workers (add_request port msg m) \<noteq> num_workers m \<longrightarrow>
            num_workers m < max_workers m \<and>
            num_workers (add_request port msg m) = num_workers m + 1"
    by (simp add: add_request_workers)
  have w: "\<forall>(r, m') \<in> worker_available m.
            num_workers m' \<noteq> num_workers m \<longrightarrow>
              num_workers m < max_workers m \<and> num_workers m' = num_workers m + 1"
    by (auto simp: worker_available_def start_def split: if_splits)
  have c: "num_workers (state_of (check_workers c1 c2 c3 alive signals m)) \<noteq> num_workers m \<longrightarrow>
            1 < num_workers m \<and>
            1 \<le> num_workers (state_of (check_workers c1 c2 c3 alive signals m)) \<and>
            num_workers (state_of (check_workers c1 c2 c3 alive signals m)) < num_workers m"
    using check_workers_workers [of c1 c2 c3 alive signals m] b by auto
  show ?thesis using b i a w c by auto
qed

text \<open>
  The theorem at the state reached by a new manager with room for two workers, a
  substep delivered to port 7, and a second substep submitted, which starts the
  second worker.
\<close>

theorem worker_count_bounds_witness:
  "active (add_request None ''T'' (state_of (process_request 7 1
             (add_request None ''S'' (WorkerManager_init 2 0 0)))))
   \<and> num_workers (add_request None ''T'' (state_of (process_request 7 1
             (add_request None ''S'' (WorkerManager_init 2 0 0))))) = 2
   \<and> max_workers (add_request None ''T'' (state_of (process_request 7 1
             (add_request None ''S'' (WorkerManager_init 2 0 0))))) = 2
   \<and> 1 \<le> num_workers (add_request None ''T'' (state_of (process_request 7 1
             (add_request None ''S'' (WorkerManager_init 2 0 0)))))
   \<and> num_workers (add_request None ''T'' (state_of (process_request 7 1
             (add_request None ''S'' (WorkerManager_init 2 0 0)))))
      \<le> max_workers (add_request None ''T'' (state_of (process_request 7 1
             (add_request None ''S'' (WorkerManager_init 2 0 0)))))"
proof -
  let ?m0 = "WorkerManager_init 2 0 0 :: string manager"
  let ?m1 = "add_request None ''S'' ?m0"
  let ?m2 = "state_of (process_request 7 1 ?m1)"
  let ?m3 = "add_request None ''T'' ?m2"
  have a0: "active ?m0" by (rule active_init)
  have a1: "active ?m1" using a0 by (rule active_add)
  have a2: "active ?m2" using a1 by (rule active_proc)
  have a3: "active ?m3" using a2 by (rule active_add)
  have m1: "?m1 = ?m0\<lparr>substep_requests := [''S''], n_requested := 1\<rparr>"
    by (simp add: add_request_def WorkerManager_init_def start_def Let_def)
  have m2: "?m2 = ?m0\<lparr>substep_requests := [], n_requested := 1, sent := [Pyobj ''S''],
                       last_avail_time := 1, n_processed := 1\<rparr>"
    unfolding m1 by (simp add: process_request_def WorkerManager_init_def start_def)
  have n: "num_workers ?m3 = 2"
    unfolding m2 by (simp add: add_request_def WorkerManager_init_def start_def Let_def)
  have x: "max_workers ?m3 = 2"
    by (simp add: add_request_workers process_request_workers init_fields)
  show ?thesis
    using worker_count_bounds [OF a3] a3 n x by simp
qed

text \<open>
  Claim C6 as it is stated fails when \<open>max_workers\<close> is 0: the constructor starts a
  worker all the same, and the new manager has one worker, more than \<open>max_workers\<close>.
\<close>

theorem worker_count_exceeds_zero_cap:
  "active (WorkerManager_init 0 0 0 :: string manager)
   \<and> max_workers (WorkerManager_init 0 0 0 :: string manager) = 0
   \<and> num_workers (WorkerManager_init 0 0 0 :: string manager) = 1
   \<and> \<not> num_workers (WorkerManager_init 0 0 0 :: string manager)
        \<le> max_workers (WorkerManager_init 0 0 0 :: string manager)"
  by (simp add: init_fields active_init)

section \<open>Properties of the worker\<close>

lemma py_index_in_range:
  "0 \<le> i \<Longrightarrow> i < int (length xs) \<Longrightarrow> py_index xs i = Some (xs ! nat i)"
  by (simp add: py_index_def)

lemma push_env_ok:
  assumes "worker_ok w"
  shows "push_env sock port w =
     Return (if stack_idx w + 1 < int (length (master_sockets w))
             then w\<lparr>stack_idx := stack_idx w + 1, env_idx := Some (stack_idx w + 1),
                    env_master_socket := Some (master_sockets w ! nat (stack_idx w + 1))\<rparr>
             else w\<lparr>stack_idx := stack_idx w + 1, env_idx := Some (stack_idx w + 1),
                    env_master_socket := Some sock,
                    master_sockets := master_sockets w @ [sock],
                    master_ports := master_ports w @ [port]\<rparr>)"
  using assms by (simp add: push_env_def worker_ok_def Let_def py_index_in_range)

lemma push_env_worker_ok:
  assumes "worker_ok w"
  shows "worker_ok (state_of (push_env sock port w))"
proof (cases "stack_idx w + 1 < int (length (master_sockets w))")
  case True
  then show ?thesis using assms by (simp add: push_env_ok) (simp add: worker_ok_def)
next
  case False
  then have "nat (stack_idx w + 1) = length (master_sockets w)"
    using assms unfolding worker_ok_def by linarith
  then show ?thesis using assms False
    by (simp add: push_env_ok) (simp add: worker_ok_def)
qed

lemma pop_env_ok:
  assumes "worker_ok w" "0 < stack_idx w"
  shows "pop_env w =
     Return (w\<lparr>stack_idx := stack_idx w - 1, env_idx := Some (stack_idx w - 1),
               env_master_socket := Some (master_sockets w ! nat (stack_idx w - 1))\<rparr>)"
  using assms by (simp add: pop_env_def worker_ok_def Let_def py_index_in_range)

lemma pop_env_worker_ok:
  assumes "worker_ok w" "0 < stack_idx w"
  shows "worker_ok (state_of (pop_env w))"
  using assms by (simp add: pop_env_ok) (simp add: worker_ok_def)

lemma worker_reach_ok: "worker_reach w \<Longrightarrow> worker_ok w"
proof (induction rule: worker_reach.induct)
  case (wr_setup sock port)
  show ?case by (simp add: run_setup_def SoS_Worker_init_def worker_ok_def)
next
  case (wr_push w sock port)
  then show ?case by (simp add: push_env_worker_ok)
next
  case (wr_pop w)
  then show ?case by (simp add: pop_env_worker_ok)
qed

lemma push_env_lists:
  "prefix (master_sockets w) (master_sockets (state_of (push_env sock port w))) \<and>
   prefix (master_ports w) (master_ports (state_of (push_env sock port w))) \<and>
   (length (master_ports w) = length (master_sockets w) \<longrightarrow>
      length (master_ports (state_of (push_env sock port w)))
        = length (master_sockets (state_of (push_env sock port w))))"
  by (simp add: push_env_def Let_def split: option.splits)

lemma pop_env_lists:
  "master_sockets (state_of (pop_env w)) = master_sockets w \<and>
   master_ports (state_of (pop_env w)) = master_ports w"
  by (simp add: pop_env_def Let_def split: option.splits)

lemma later_lists:
  assumes "later w w'"
  shows "prefix (master_sockets w) (master_sockets w') \<and>
         prefix (master_ports w) (master_ports w') \<and>
         (length (master_ports w) = length (master_sockets w) \<longrightarrow>
            length (master_ports w') = length (master_sockets w'))"
  using assms
proof (induction rule: later.induct)
  case (later_refl w)
  show ?case by simp
next
  case (later_push w w' sock port)
  then show ?case
    using push_env_lists [of w' sock port] by (auto intro: prefix_order.trans)
next
  case (later_pop w w')
  then show ?case by (simp add: pop_env_lists)
qed

lemma prefix_nth: "prefix xs ys \<Longrightarrow> i < length xs \<Longrightarrow> ys ! i = xs ! i"
  by (auto simp: prefix_def nth_append)

subsection \<open>\<open>push_env\<close> followed by \<open>pop_env\<close>\<close>

text \<open>
  Claim C10. In every state \<open>w\<close> of a running worker, \<open>push_env\<close> returns a state
  \<open>w1\<close> and \<open>pop_env\<close> right after it returns a state \<open>w2\<close> in which \<open>stack_idx\<close>,
  \<open>env.master_socket\<close> and the active port are what they were in \<open>w\<close>. The lists
  of sockets and ports never shrink: in every state that comes later, by any calls
  of the two methods, each list starts with what it was. The port of the depth
  that \<open>push_env\<close> entered is kept and used again: in every state that comes after
  \<open>w1\<close> and is back at the depth of \<open>w\<close>, \<open>push_env\<close> returns, makes the active
  port and the master socket what they were in \<open>w1\<close>, and adds nothing to the
  lists.
\<close>

theorem push_pop_round_trip:
  assumes "worker_reach w"
  shows "\<exists>w1 w2. push_env sock port w = Return w1 \<and> pop_env w1 = Return w2 \<and>
           stack_idx w2 = stack_idx w \<and>
           env_master_socket w2 = env_master_socket w \<and>
           active_port w2 = active_port w \<and>
           (\<forall>w'. later w w' \<longrightarrow>
              prefix (master_sockets w) (master_sockets w') \<and>
              prefix (master_ports w) (master_ports w')) \<and>
           (\<forall>w' sock' port'. later w1 w' \<and> stack_idx w' = stack_idx w \<longrightarrow>
              is_return (push_env sock' port' w') \<and>
              active_port (state_of (push_env sock' port' w')) = active_port w1 \<and>
              env_master_socket (state_of (push_env sock' port' w')) = env_master_socket w1 \<and>
              master_sockets (state_of (push_env sock' port' w')) = master_sockets w' \<and>
              master_ports (state_of (push_env sock' port' w')) = master_ports w')"
proof -
  have ok: "worker_ok w" using assms by (rule worker_reach_ok)
  define w1 where "w1 = state_of (push_env sock port w)"
  define w2 where "w2 = state_of (pop_env w1)"
  have ok1: "worker_ok w1" unfolding w1_def using ok by (rule push_env_worker_ok)
  have push: "push_env sock port w = Return w1"
    unfolding w1_def using ok by (simp add: push_env_ok)
  have idx1: "stack_idx w1 = stack_idx w + 1"
    unfolding w1_def using ok by (simp add: push_env_ok)
  have pos1: "0 < stack_idx w1" using idx1 ok by (simp add: worker_ok_def)
  have pop: "pop_env w1 = Return w2"
    unfolding w2_def using ok1 pos1 by (simp add: pop_env_ok)
  have pre1: "prefix (master_sockets w) (master_sockets w1)"
    "prefix (master_ports w) (master_ports w1)"
    unfolding w1_def using push_env_lists [of w sock port] by simp_all
  have inw: "nat (stack_idx w) < length (master_sockets w)"
    "nat (stack_idx w) < length (master_ports w)"
    using ok unfolding worker_ok_def by linarith+
  have w2: "w2 = w1\<lparr>stack_idx := stack_idx w, env_idx := Some (stack_idx w),
               env_master_socket := Some (master_sockets w1 ! nat (stack_idx w))\<rparr>"
    unfolding w2_def using ok1 pos1 idx1 by (simp add: pop_env_ok)
  have a: "stack_idx w2 = stack_idx w" by (simp add: w2)
  have b: "env_master_socket w2 = env_master_socket w"
    using ok prefix_nth [OF pre1(1) inw(1)] by (simp add: w2 worker_ok_def)
  have len1: "int (length (master_ports w)) \<le> int (length (master_ports w1))"
    using pre1(2) by (simp add: prefix_length_le)
  have c: "active_port w2 = active_port w"
    using ok inw len1 prefix_nth [OF pre1(2) inw(2)]
    by (simp add: w2 active_port_def worker_ok_def py_index_in_range)
  have d: "\<forall>w'. later w w' \<longrightarrow>
              prefix (master_sockets w) (master_sockets w') \<and>
              prefix (master_ports w) (master_ports w')"
    using later_lists by blast
  have e: "is_return (push_env sock' port' w') \<and>
           active_port (state_of (push_env sock' port' w')) = active_port w1 \<and>
           env_master_socket (state_of (push_env sock' port' w')) = env_master_socket w1 \<and>
           master_sockets (state_of (push_env sock' port' w')) = master_sockets w' \<and>
           master_ports (state_of (push_env sock' port' w')) = master_ports w'"
    if l: "later w1 w'" and i: "stack_idx w' = stack_idx w" for w' sock' port'
  proof -
    have in1: "nat (stack_idx w1) < length (master_sockets w1)"
      "nat (stack_idx w1) < length (master_ports w1)"
      "0 \<le> stack_idx w1"
      using ok1 unfolding worker_ok_def by linarith+
    have ll: "prefix (master_sockets w1) (master_sockets w')"
      "prefix (master_ports w1) (master_ports w')"
      "length (master_ports w') = length (master_sockets w')"
      using later_lists [OF l] ok1 by (simp_all add: worker_ok_def)
    have lens: "stack_idx w1 < int (length (master_sockets w'))"
      "stack_idx w1 < int (length (master_ports w'))"
      using in1 ll prefix_length_le [OF ll(1)] by simp_all
    have i1: "stack_idx w' + 1 = stack_idx w1" using i idx1 by simp
    have p: "push_env sock' port' w' =
       Return (w'\<lparr>stack_idx := stack_idx w1, env_idx := Some (stack_idx w1),
                 env_master_socket := Some (master_sockets w' ! nat (stack_idx w1))\<rparr>)"
      using lens in1(3) by (simp add: push_env_def Let_def i1 py_index_in_range)
    have ap1: "active_port w1 = Some (master_ports w1 ! nat (stack_idx w1))"
      using in1 by (simp add: active_port_def py_index_in_range)
    show ?thesis
      using lens in1 ok1 prefix_nth [OF ll(1) in1(1)] prefix_nth [OF ll(2) in1(2)]
      by (simp add: p ap1 active_port_def py_index_in_range worker_ok_def)
  qed
  show ?thesis using push pop a b c d e by blast
qed

text \<open>
  The theorem at the worker that has just created its first socket, socket 10 on
  port 5000: \<open>push_env\<close> creates socket 11 on port 5001, \<open>pop_env\<close> goes back to
  port 5000, and the next \<open>push_env\<close> uses port 5001 again and not the new port
  5002.
\<close>

theorem push_pop_round_trip_witness:
  "worker_reach (run_setup (10::nat) 5000 SoS_Worker_init)
   \<and> active_port (run_setup (10::nat) 5000 SoS_Worker_init) = Some 5000
   \<and> stack_idx (state_of (pop_env (state_of
        (push_env 11 5001 (run_setup (10::nat) 5000 SoS_Worker_init))))) = 0
   \<and> env_master_socket (state_of (pop_env (state_of
        (push_env 11 5001 (run_setup (10::nat) 5000 SoS_Worker_init))))) = Some 10
   \<and> active_port (state_of (pop_env (state_of
        (push_env 11 5001 (run_setup (10::nat) 5000 SoS_Worker_init))))) = Some 5000
   \<and> active_port (state_of (push_env 12 5002 (state_of (pop_env (state_of
        (push_env 11 5001 (run_setup (10::nat) 5000 SoS_Worker_init))))))) = Some 5001
   \<and> master_ports (state_of (push_env 12 5002 (state_of (pop_env (state_of
        (push_env 11 5001 (run_setup (10::nat) 5000 SoS_Worker_init))))))) = [5000, 5001]"
proof -
  let ?w = "run_setup (10::nat) 5000 SoS_Worker_init"
  have h: "worker_reach ?w" by (rule wr_setup)
  have w: "?w = \<lparr>master_sockets = [10], master_ports = [5000], stack_idx = 0,
                 env_idx = None, env_master_socket = Some 10\<rparr>"
    by (simp add: run_setup_def SoS_Worker_init_def)
  have ap: "active_port ?w = Some 5000"
    by (simp add: w active_port_def py_index_def)
  have w1: "state_of (push_env 11 5001 ?w) =
              \<lparr>master_sockets = [10, 11], master_ports = [5000, 5001], stack_idx = 1,
               env_idx = Some 1, env_master_socket = Some 11\<rparr>"
    by (simp add: w push_env_def Let_def)
  have ap1: "active_port (state_of (push_env 11 5001 ?w)) = Some 5001"
    by (simp add: w1 active_port_def py_index_def)
  from push_pop_round_trip [OF h, of 11 5001]
  obtain w1 w2 where
    p1: "push_env 11 5001 ?w = Return w1" and p2: "pop_env w1 = Return w2"
    and r: "stack_idx w2 = stack_idx ?w" "env_master_socket w2 = env_master_socket ?w"
      "active_port w2 = active_port ?w"
    and again: "\<forall>w' sock' port'. later w1 w' \<and> stack_idx w' = stack_idx ?w \<longrightarrow>
              is_return (push_env sock' port' w') \<and>
              active_port (state_of (push_env sock' port' w')) = active_port w1 \<and>
              env_master_socket (state_of (push_env sock' port' w')) = env_master_socket w1 \<and>
              master_sockets (state_of (push_env sock' port' w')) = master_sockets w' \<and>
              master_ports (state_of (push_env sock' port' w')) = master_ports w'"
    by blast
  have e1: "w1 = state_of (push_env 11 5001 ?w)" by (simp add: p1)
  have e2: "w2 = state_of (pop_env (state_of (push_env 11 5001 ?w)))" by (simp add: p1 p2)
  have l: "later w1 w2" using later_pop [OF later_refl, of w1] by (simp add: p2)
  have mp1: "master_ports w1 = [5000, 5001]" unfolding e1 by (simp add: w1)
  have mp2: "master_ports w2 = [5000, 5001]"
    using pop_env_lists [of w1] mp1 by (simp add: p2)
  have g: "active_port (state_of (push_env 12 5002 w2)) = active_port w1
           \<and> master_ports (state_of (push_env 12 5002 w2)) = master_ports w2"
    using again l r(1) by blast
  have s0: "stack_idx ?w = 0" "env_master_socket ?w = Some 10" by (simp_all add: w)
  have f1: "stack_idx w2 = 0" using r(1) s0 by simp
  have f2: "env_master_socket w2 = Some 10" using r(2) s0 by simp
  have f3: "active_port w2 = Some 5000" using r(3) ap by simp
  have f4: "active_port (state_of (push_env 12 5002 w2)) = Some 5001"
    using g ap1 e1 by simp
  have f5: "master_ports (state_of (push_env 12 5002 w2)) = [5000, 5001]"
    using g mp2 by simp
  show ?thesis using h ap f1 f2 f3 f4 f5 unfolding e2 by blast
qed

end
